theory Spec2Isabelle
  imports Complex_Main
begin

section \<open>Organizational units and users (app/models/user.py)\<close>

text \<open>
  The four access levels of \<^verbatim>\<open>class AccessLevel(Enum)\<close>, with their numeric values
  (EXECUTIVE = 1 is the most privileged).
\<close>

datatype AccessLevel = EXECUTIVE | REGIONAL | BRANCH | INDIVIDUAL

fun access_level_value :: "AccessLevel \<Rightarrow> int" where
  "access_level_value EXECUTIVE = 1"
| "access_level_value REGIONAL = 2"
| "access_level_value BRANCH = 3"
| "access_level_value INDIVIDUAL = 4"

text \<open>
  A row of the table \<^verbatim>\<open>organizational_units\<close>. The table itself is the list of its rows;
  \<^verbatim>\<open>parent_id\<close> is nullable.
\<close>

record OrganizationalUnit =
  ou_id :: int
  ou_parent_id :: "int option"
  ou_is_active :: bool

record User =
  u_id :: int
  u_username :: string
  u_access_level :: AccessLevel
  u_organizational_unit_id :: int

text \<open>
  The exceptions the modelled code can raise: Python's recursion limit stops a
  traversal of a cyclic parent graph, dereferencing a missing unit raises
  \<^verbatim>\<open>AttributeError\<close>, and multiplying a \<^verbatim>\<open>Decimal\<close> by a \<^verbatim>\<open>float\<close> raises
  \<^verbatim>\<open>TypeError\<close>.
\<close>

datatype error = RecursionError | AttributeError | TypeError

text \<open>\<^verbatim>\<open>OrganizationalUnit.query.get(id)\<close>: the row with that primary key, if any.\<close>

definition query_get :: "OrganizationalUnit list \<Rightarrow> int \<Rightarrow> OrganizationalUnit option" where
  "query_get db i = find (\<lambda>r. ou_id r = i) db"

text \<open>The backref \<^verbatim>\<open>children\<close>: the rows whose \<^verbatim>\<open>parent_id\<close> is this unit's id.\<close>

definition children :: "OrganizationalUnit list \<Rightarrow> OrganizationalUnit \<Rightarrow> OrganizationalUnit list" where
  "children db unit = filter (\<lambda>c. ou_parent_id c = Some (ou_id unit)) db"

text \<open>
  \<^verbatim>\<open>get_all_children\<close>: for each child, append the child and then extend by the child's own
  result. The recursion has no base case of its own in the source: it ends where a unit
  has no children, and on a cyclic table it ends with Python's \<^verbatim>\<open>RecursionError\<close>. The
  first argument bounds the depth of the call stack; \<open>None\<close> is the stack overflow.
  \<open>extend_children\<close> is the body of the \<^verbatim>\<open>for\<close> loop, \<open>acc\<close> the list built so far.
\<close>

fun extend_children ::
  "(OrganizationalUnit \<Rightarrow> OrganizationalUnit list option) \<Rightarrow> OrganizationalUnit list \<Rightarrow>
   OrganizationalUnit list \<Rightarrow> OrganizationalUnit list option" where
  "extend_children rec [] acc = Some acc"
| "extend_children rec (child # rest) acc =
     (case rec child of
        None \<Rightarrow> None
      | Some sub \<Rightarrow> extend_children rec rest (acc @ [child] @ sub))"

fun get_all_children ::
  "nat \<Rightarrow> OrganizationalUnit list \<Rightarrow> OrganizationalUnit \<Rightarrow> OrganizationalUnit list option" where
  "get_all_children 0 db unit = None"
| "get_all_children (Suc depth) db unit =
     extend_children (get_all_children depth db) (children db unit) []"

text \<open>
  \<^verbatim>\<open>User.can_access_organizational_unit\<close>. \<^verbatim>\<open>self.organizational_unit\<close> is the row
  the user's foreign key points to; \<^verbatim>\<open>target_unit in children\<close> is membership of the row.
\<close>

definition can_access_organizational_unit ::
  "nat \<Rightarrow> OrganizationalUnit list \<Rightarrow> User \<Rightarrow> int \<Rightarrow> error + bool" where
  "can_access_organizational_unit depth db self org_unit_id =
     (if u_access_level self = EXECUTIVE then Inr True
      else if u_organizational_unit_id self = org_unit_id then Inr True
      else if u_access_level self \<in> {REGIONAL, BRANCH} then
        (case query_get db org_unit_id of
           None \<Rightarrow> Inr False
         | Some target_unit \<Rightarrow>
             (case query_get db (u_organizational_unit_id self) of
                None \<Rightarrow> Inl AttributeError
              | Some own \<Rightarrow>
                  (case get_all_children depth db own of
                     None \<Rightarrow> Inl RecursionError
                   | Some cs \<Rightarrow> Inr (target_unit \<in> set cs))))
      else Inr False)"

text \<open>
  \<^verbatim>\<open>User.get_accessible_organizational_units\<close>. The first element of the list is
  \<^verbatim>\<open>self.organizational_unit\<close>, which is \<^verbatim>\<open>None\<close> when the row is missing, so the
  elements are options.
\<close>

definition get_accessible_organizational_units ::
  "nat \<Rightarrow> OrganizationalUnit list \<Rightarrow> User \<Rightarrow> error + OrganizationalUnit option list" where
  "get_accessible_organizational_units depth db self =
     (if u_access_level self = EXECUTIVE then Inr (map Some db)
      else
        let accessible = [query_get db (u_organizational_unit_id self)] in
        if u_access_level self \<in> {REGIONAL, BRANCH} then
          (case query_get db (u_organizational_unit_id self) of
             None \<Rightarrow> Inl AttributeError
           | Some own \<Rightarrow>
               (case get_all_children depth db own of
                  None \<Rightarrow> Inl RecursionError
                | Some cs \<Rightarrow> Inr (accessible @ map Some cs)))
        else Inr accessible)"

section \<open>Customers (app/models/customer.py)\<close>

datatype CustomerStage = SUSPECT | PROSPECT | LEAD | CUSTOMER | INACTIVE

text \<open>
  The columns of \<^verbatim>\<open>customers\<close> that the modelled methods read or write. Timestamps are
  seconds since the epoch; a nullable column is an option.
\<close>

record Customer =
  c_id :: int
  c_email :: "string option"
  c_phone :: "string option"
  c_mobile :: "string option"
  c_stage :: CustomerStage
  c_qualification_score :: int
  c_estimated_assets :: "rat option"
  c_credit_score :: "int option"
  c_owner_id :: int
  c_organizational_unit_id :: int
  c_suspect_date :: "int option"
  c_prospect_date :: "int option"
  c_lead_date :: "int option"
  c_customer_date :: "int option"
  c_last_contact_date :: "int option"

text \<open>\<^verbatim>\<open>User.can_access_customer\<close>.\<close>

definition can_access_customer ::
  "nat \<Rightarrow> OrganizationalUnit list \<Rightarrow> User \<Rightarrow> Customer \<Rightarrow> error + bool" where
  "can_access_customer depth db self customer =
     (if u_access_level self = INDIVIDUAL then Inr (c_owner_id customer = u_id self)
      else can_access_organizational_unit depth db self (c_organizational_unit_id customer))"

section \<open>Access control helpers (app/utils/access_control.py)\<close>

text \<open>
  Flask-Login's \<^verbatim>\<open>current_user\<close>: the anonymous user, whose \<^verbatim>\<open>is_authenticated\<close> is
  false, or a logged-in \<open>User\<close>.
\<close>

datatype CurrentUser = Anonymous | LoggedIn User

fun is_authenticated :: "CurrentUser \<Rightarrow> bool" where
  "is_authenticated Anonymous = False"
| "is_authenticated (LoggedIn u) = True"

fun can_view_customer ::
  "nat \<Rightarrow> OrganizationalUnit list \<Rightarrow> CurrentUser \<Rightarrow> Customer \<Rightarrow> error + bool" where
  "can_view_customer depth db Anonymous customer = Inr False"
| "can_view_customer depth db (LoggedIn u) customer = can_access_customer depth db u customer"

fun can_edit_customer ::
  "nat \<Rightarrow> OrganizationalUnit list \<Rightarrow> CurrentUser \<Rightarrow> Customer \<Rightarrow> error + bool" where
  "can_edit_customer depth db Anonymous customer = Inr False"
| "can_edit_customer depth db (LoggedIn u) customer =
     (if u_access_level u = INDIVIDUAL then Inr (c_owner_id customer = u_id u)
      else can_access_organizational_unit depth db u (c_organizational_unit_id customer))"

fun can_delete_customer ::
  "nat \<Rightarrow> OrganizationalUnit list \<Rightarrow> CurrentUser \<Rightarrow> Customer \<Rightarrow> error + bool" where
  "can_delete_customer depth db Anonymous customer = Inr False"
| "can_delete_customer depth db (LoggedIn u) customer =
     (if u_access_level u = INDIVIDUAL then Inr False
      else can_access_organizational_unit depth db u (c_organizational_unit_id customer))"

fun can_reassign_customer ::
  "nat \<Rightarrow> OrganizationalUnit list \<Rightarrow> CurrentUser \<Rightarrow> Customer \<Rightarrow> error + bool" where
  "can_reassign_customer depth db Anonymous customer = Inr False"
| "can_reassign_customer depth db (LoggedIn u) customer =
     (if u_access_level u = INDIVIDUAL then Inr False
      else can_access_organizational_unit depth db u (c_organizational_unit_id customer))"

section \<open>Opportunities (app/models/opportunity.py)\<close>

datatype OpportunityStage =
  IDENTIFICATION | QUALIFICATION | PROPOSAL | NEGOTIATION | CLOSING | WON | LOST | POST_SALE

datatype LostReason =
  PRICE | COMPETITOR | NO_RESPONSE | TIMING | NO_NEED | CREDIT_REJECTED | OTHER

text \<open>
  A money value as Python holds it. The columns \<^verbatim>\<open>amount\<close>, \<^verbatim>\<open>expected_revenue\<close> and
  \<^verbatim>\<open>actual_revenue\<close> are \<^verbatim>\<open>Numeric(15, 2)\<close>: on a row loaded from the database the
  attribute is a \<^verbatim>\<open>Decimal\<close>, while on an object built or edited in memory (the forms
  parse with \<^verbatim>\<open>type=float\<close>, the seed data uses integer literals) it is an \<^verbatim>\<open>int\<close> or
  a \<^verbatim>\<open>float\<close>. Both carry a rational value.
\<close>

datatype money = PyNumber rat | PyDecimal rat

fun money_value :: "money \<Rightarrow> rat" where
  "money_value (PyNumber x) = x"
| "money_value (PyDecimal x) = x"

text \<open>
  The columns of \<^verbatim>\<open>opportunities\<close> used by the lifecycle methods. A \<^verbatim>\<open>DateTime\<close> is
  seconds since the epoch and a \<^verbatim>\<open>Date\<close> is days since the epoch.
\<close>

record Opportunity =
  o_id :: int
  o_customer_id :: int
  o_stage :: OpportunityStage
  o_amount :: "money option"
  o_probability :: "int option"
  o_expected_revenue :: "money option"
  o_actual_revenue :: "money option"
  o_actual_close_date :: "int option"
  o_owner_id :: int
  o_organizational_unit_id :: int
  o_is_active :: bool
  o_won_date :: "int option"
  o_lost_date :: "int option"
  o_lost_reason :: "LostReason option"
  o_lost_notes :: "string option"
  o_competitor_name :: "string option"

text \<open>
  Python's truth value of a number that may be \<^verbatim>\<open>None\<close> (\<^verbatim>\<open>if x:\<close>): false for
  \<^verbatim>\<open>None\<close> and for zero. Likewise for a string: false for \<^verbatim>\<open>None\<close> and for the empty
  string.
\<close>

definition truthy_num :: "'a::zero option \<Rightarrow> bool" where
  "truthy_num v = (case v of None \<Rightarrow> False | Some x \<Rightarrow> x \<noteq> 0)"

definition truthy_str :: "string option \<Rightarrow> bool" where
  "truthy_str v = (case v of None \<Rightarrow> False | Some x \<Rightarrow> x \<noteq> [])"

text \<open>The truth value of a money attribute: false for \<^verbatim>\<open>None\<close> and for zero of either kind.\<close>

definition truthy_money :: "money option \<Rightarrow> bool" where
  "truthy_money v = (case v of None \<Rightarrow> False | Some m \<Rightarrow> money_value m \<noteq> 0)"

text \<open>\<^verbatim>\<open>datetime.date()\<close> of a timestamp in seconds.\<close>

definition date_of :: "int \<Rightarrow> int" where
  "date_of now = now div 86400"

text \<open>
  \<^verbatim>\<open>Opportunity.update_expected_revenue\<close>, guarded by the truth of both operands. The
  methods of \<open>Opportunity\<close> assign to the object in place, so each returns the object
  as the call leaves it together with the exception it raised, if any.

  \<^verbatim>\<open>self.probability / 100\<close> is a \<^verbatim>\<open>float\<close>. Multiplying an \<^verbatim>\<open>int\<close> or \<^verbatim>\<open>float\<close>
  amount by it gives a binary floating-point number: \<open>float_product a p\<close> stands for
  the value Python computes for \<^verbatim>\<open>a * (p / 100)\<close> and is an argument of the model,
  which fixes no rounding. Multiplying a \<^verbatim>\<open>Decimal\<close> amount by it raises
  \<^verbatim>\<open>TypeError\<close>, and nothing is assigned.
\<close>

definition update_expected_revenue ::
  "(rat \<Rightarrow> int \<Rightarrow> rat) \<Rightarrow> Opportunity \<Rightarrow> error option \<times> Opportunity" where
  "update_expected_revenue float_product self =
     (if truthy_money (o_amount self) \<and> truthy_num (o_probability self) then
        (case (o_amount self, o_probability self) of
           (Some (PyNumber amount), Some probability) \<Rightarrow>
             (None, self\<lparr>o_expected_revenue :=
                            Some (PyNumber (float_product amount probability))\<rparr>)
         | (Some (PyDecimal amount), Some probability) \<Rightarrow> (Some TypeError, self)
         | _ \<Rightarrow> (None, self))
      else (None, self))"

text \<open>The dictionary \<^verbatim>\<open>stage_probabilities\<close>; POST_SALE is not a key.\<close>

fun stage_probabilities :: "OpportunityStage \<Rightarrow> int option" where
  "stage_probabilities IDENTIFICATION = Some 10"
| "stage_probabilities QUALIFICATION = Some 20"
| "stage_probabilities PROPOSAL = Some 40"
| "stage_probabilities NEGOTIATION = Some 60"
| "stage_probabilities CLOSING = Some 80"
| "stage_probabilities WON = Some 100"
| "stage_probabilities LOST = Some 0"
| "stage_probabilities POST_SALE = None"

text \<open>
  \<^verbatim>\<open>Opportunity.advance_stage\<close>. The clock (\<^verbatim>\<open>datetime.utcnow()\<close>) is the argument
  \<open>now\<close>. An exception from \<^verbatim>\<open>update_expected_revenue\<close> leaves the method at once:
  the stage and the probability are assigned by then, the fields of the WON and LOST
  branches are not.
\<close>

definition opportunity_advance_stage ::
  "(rat \<Rightarrow> int \<Rightarrow> rat) \<Rightarrow> Opportunity \<Rightarrow> OpportunityStage \<Rightarrow> int \<Rightarrow> error option \<times> Opportunity" where
  "opportunity_advance_stage float_product self new_stage now =
     (let s1 = self\<lparr>o_stage := new_stage\<rparr>
      in case (case stage_probabilities new_stage of
                 Some p \<Rightarrow> update_expected_revenue float_product (s1\<lparr>o_probability := Some p\<rparr>)
               | None \<Rightarrow> (None, s1)) of
           (Some e, s2) \<Rightarrow> (Some e, s2)
         | (None, s2) \<Rightarrow>
             if new_stage = WON then
               (None, s2\<lparr>o_is_active := False, o_won_date := Some now,
                         o_actual_close_date := Some (date_of now),
                         o_actual_revenue := o_amount s2\<rparr>)
             else if new_stage = LOST then
               (None, s2\<lparr>o_is_active := False, o_lost_date := Some now,
                         o_actual_close_date := Some (date_of now)\<rparr>)
             else (None, s2))"

text \<open>
  \<^verbatim>\<open>Opportunity.mark_won(actual_revenue=None)\<close>: the argument replaces the revenue
  under \<^verbatim>\<open>if actual_revenue:\<close>, which is reached only if \<^verbatim>\<open>advance_stage\<close> returned.
\<close>

definition mark_won ::
  "(rat \<Rightarrow> int \<Rightarrow> rat) \<Rightarrow> Opportunity \<Rightarrow> money option \<Rightarrow> int \<Rightarrow> error option \<times> Opportunity" where
  "mark_won float_product self actual_revenue now =
     (case opportunity_advance_stage float_product self WON now of
        (Some e, s1) \<Rightarrow> (Some e, s1)
      | (None, s1) \<Rightarrow>
          (None, if truthy_money actual_revenue
                 then s1\<lparr>o_actual_revenue := actual_revenue\<rparr> else s1))"

text \<open>\<^verbatim>\<open>Opportunity.mark_lost\<close>.\<close>

definition mark_lost ::
  "(rat \<Rightarrow> int \<Rightarrow> rat) \<Rightarrow> Opportunity \<Rightarrow> LostReason \<Rightarrow> string option \<Rightarrow> string option \<Rightarrow> int \<Rightarrow>
   error option \<times> Opportunity" where
  "mark_lost float_product self reason notes competitor now =
     (case opportunity_advance_stage float_product self LOST now of
        (Some e, s1) \<Rightarrow> (Some e, s1)
      | (None, s1) \<Rightarrow>
          (None, s1\<lparr>o_lost_reason := Some reason, o_lost_notes := notes,
                    o_competitor_name := competitor\<rparr>))"

section \<open>Customer lifecycle (app/models/customer.py)\<close>

text \<open>\<^verbatim>\<open>Customer.advance_stage\<close>.\<close>

definition customer_advance_stage :: "Customer \<Rightarrow> CustomerStage \<Rightarrow> int \<Rightarrow> Customer" where
  "customer_advance_stage self new_stage now =
     (let s1 = self\<lparr>c_stage := new_stage\<rparr>
      in if new_stage = PROSPECT then s1\<lparr>c_prospect_date := Some now\<rparr>
         else if new_stage = LEAD then s1\<lparr>c_lead_date := Some now\<rparr>
         else if new_stage = CUSTOMER then s1\<lparr>c_customer_date := Some now\<rparr>
         else s1)"

text \<open>
  \<^verbatim>\<open>(datetime.utcnow() - self.last_contact_date).days\<close>: a timedelta is normalised with a
  non-negative seconds part, so \<^verbatim>\<open>.days\<close> is the floor of the difference in days.
\<close>

definition days_since :: "int \<Rightarrow> int \<Rightarrow> int" where
  "days_since now t = (now - t) div 86400"

text \<open>
  \<^verbatim>\<open>self.opportunities.filter_by(is_active=True).count()\<close>: the rows of the opportunity
  table that belong to the customer and are active.
\<close>

definition active_opportunity_count :: "Opportunity list \<Rightarrow> Customer \<Rightarrow> nat" where
  "active_opportunity_count opportunities self =
     length (filter (\<lambda>opp. o_customer_id opp = c_id self \<and> o_is_active opp) opportunities)"

text \<open>
  \<^verbatim>\<open>Customer.calculate_qualification_score\<close>: the score is accumulated statement by
  statement, stored in the record and returned.
\<close>

definition calculate_qualification_score ::
  "Customer \<Rightarrow> Opportunity list \<Rightarrow> int \<Rightarrow> Customer \<times> int" where
  "calculate_qualification_score self opportunities now =
     (let score = 0;
          score = (if truthy_str (c_email self) then score + 10 else score);
          score = (if truthy_str (c_mobile self) \<or> truthy_str (c_phone self)
                   then score + 10 else score);
          score = (if truthy_num (c_estimated_assets self) then score + 20 else score);
          score = (if truthy_num (c_credit_score self) \<and>
                      (case c_credit_score self of None \<Rightarrow> False | Some cs \<Rightarrow> cs > 600)
                   then score + 20 else score);
          score = (case c_last_contact_date self of
                     None \<Rightarrow> score
                   | Some last_contact \<Rightarrow>
                       let days_since_contact = days_since now last_contact
                       in if days_since_contact < 7 then score + 20
                          else if days_since_contact < 30 then score + 10
                          else score);
          score = (if active_opportunity_count opportunities self > 0
                   then score + 20 else score);
          result = min score 100
      in (self\<lparr>c_qualification_score := result\<rparr>, result))"

section \<open>Tasks (app/models/activity.py)\<close>

datatype TaskStatus = PENDING | IN_PROGRESS | COMPLETED | CANCELLED | OVERDUE

record Task =
  t_id :: int
  t_status :: TaskStatus
  t_assigned_to_id :: int
  t_assigned_by_id :: int
  t_due_date :: int
  t_is_overdue :: bool
  t_completed_date :: "int option"
  t_escalation_level :: int
  t_escalated_to_id :: "int option"
  t_escalation_date :: "int option"

text \<open>\<^verbatim>\<open>Task.check_overdue\<close>: the updated task and the returned flag.\<close>

definition check_overdue :: "Task \<Rightarrow> int \<Rightarrow> Task \<times> bool" where
  "check_overdue self now =
     (if t_status self \<notin> {COMPLETED, CANCELLED} then
        (if t_due_date self < now
         then (self\<lparr>t_is_overdue := True, t_status := OVERDUE\<rparr>, True)
         else (self, False))
      else (self, False))"

text \<open>\<^verbatim>\<open>Task.complete\<close>.\<close>

definition complete :: "Task \<Rightarrow> int \<Rightarrow> Task" where
  "complete self now =
     self\<lparr>t_status := COMPLETED, t_completed_date := Some now, t_is_overdue := False\<rparr>"

text \<open>\<^verbatim>\<open>Task.escalate\<close>.\<close>

definition escalate :: "Task \<Rightarrow> int \<Rightarrow> int \<Rightarrow> Task" where
  "escalate self escalated_to_user_id now =
     self\<lparr>t_escalation_level := t_escalation_level self + 1,
          t_escalated_to_id := Some escalated_to_user_id,
          t_escalation_date := Some now\<rparr>"

section \<open>Query filters (app/utils/query_filters.py)\<close>

text \<open>
  \<^verbatim>\<open>unit.users.all()\<close> for every accessible unit, collected into the list of user ids.
  A missing unit (\<^verbatim>\<open>None\<close>) has no attribute \<^verbatim>\<open>users\<close>.
\<close>

fun accessible_user_ids :: "User list \<Rightarrow> OrganizationalUnit option list \<Rightarrow> int list \<Rightarrow> error + int list" where
  "accessible_user_ids users [] acc = Inr acc"
| "accessible_user_ids users (None # rest) acc = Inl AttributeError"
| "accessible_user_ids users (Some unit # rest) acc =
     accessible_user_ids users rest
       (acc @ map u_id (filter (\<lambda>u. u_organizational_unit_id u = ou_id unit) users))"

text \<open>
  \<^verbatim>\<open>apply_task_filter\<close>. A query is the list of rows it would return; filtering a query
  keeps the rows that satisfy the condition. \<^verbatim>\<open>Task.id == None\<close> holds for no row,
  the primary key being non-null.
\<close>

definition apply_task_filter ::
  "nat \<Rightarrow> OrganizationalUnit list \<Rightarrow> User list \<Rightarrow> CurrentUser \<Rightarrow> Task list \<Rightarrow> error + Task list" where
  "apply_task_filter depth db users current_user query =
     (case current_user of
        Anonymous \<Rightarrow> Inr (filter (\<lambda>t. False) query)
      | LoggedIn u \<Rightarrow>
          if u_access_level u = EXECUTIVE then Inr query
          else if u_access_level u = INDIVIDUAL then
            Inr (filter (\<lambda>t. t_assigned_to_id t = u_id u \<or> t_assigned_by_id t = u_id u) query)
          else
            (case get_accessible_organizational_units depth db u of
               Inl e \<Rightarrow> Inl e
             | Inr accessible_units \<Rightarrow>
                 (case accessible_user_ids users accessible_units [] of
                    Inl e \<Rightarrow> Inl e
                  | Inr ids \<Rightarrow>
                      Inr (filter (\<lambda>t. t_assigned_to_id t \<in> set ids \<or> t_assigned_by_id t \<in> set ids)
                             query))))"

section \<open>Audit trail (app/models/audit.py, app/utils/decorators.py)\<close>

text \<open>
  A row of \<^verbatim>\<open>audit_logs\<close> (the request-context columns, which no modelled decision
  reads, are left out).
\<close>

record AuditLog =
  a_user_id :: "int option"
  a_username :: string
  a_action :: string
  a_resource_type :: string
  a_resource_id :: "int option"
  a_description :: "string option"
  a_success :: bool
  a_error_message :: "string option"

text \<open>
  A raised Python exception, with its \<^verbatim>\<open>str(e)\<close>. \<^verbatim>\<open>except Exception\<close> catches the
  first kind only; \<^verbatim>\<open>SystemExit\<close>, \<^verbatim>\<open>KeyboardInterrupt\<close> and the like are of the second.
\<close>

datatype exc = Exception string | BaseException string

text \<open>
  The state the audited call runs in: the audit table, whether the database accepts a
  commit, the lines of the application's error log and the entries sent to the
  \<^verbatim>\<open>audit\<close> logger.
\<close>

record World =
  w_audit_logs :: "AuditLog list"
  w_db_available :: bool
  w_app_log :: "string list"
  w_audit_logger :: "AuditLog list"

text \<open>
  \<^verbatim>\<open>AuditLog.log_action\<close>: builds the entry, adds and commits it, then reports it to the
  audit logger. A commit that fails raises, and nothing is stored.
\<close>

definition log_action ::
  "User option \<Rightarrow> string \<Rightarrow> string \<Rightarrow> int option \<Rightarrow> string option \<Rightarrow> bool \<Rightarrow> string option \<Rightarrow>
   World \<Rightarrow> (exc + AuditLog) \<times> World" where
  "log_action user action resource_type resource_id description success error_message w =
     (let audit_entry = \<lparr>
            a_user_id = (case user of Some u \<Rightarrow> Some (u_id u) | None \<Rightarrow> None),
            a_username = (case user of Some u \<Rightarrow> u_username u | None \<Rightarrow> ''anonymous''),
            a_action = action,
            a_resource_type = resource_type,
            a_resource_id = resource_id,
            a_description = description,
            a_success = success,
            a_error_message = error_message\<rparr>
      in if w_db_available w then
           (Inr audit_entry,
            w\<lparr>w_audit_logs := w_audit_logs w @ [audit_entry],
              w_audit_logger := w_audit_logger w @ [audit_entry]\<rparr>)
         else (Inl (Exception ''commit failed''), w))"

text \<open>Python's \<^verbatim>\<open>a or b\<close> on values that may be \<^verbatim>\<open>None\<close>.\<close>

definition py_or :: "int option \<Rightarrow> int option \<Rightarrow> int option" where
  "py_or a b = (if truthy_num a then a else b)"

text \<open>
  \<^verbatim>\<open>audit_action(action, resource_type)\<close> applied to a function \<open>f\<close> and called: \<open>f\<close> is
  the wrapped call with its arguments, a function of the state that returns or raises;
  \<open>kwargs\<close> are its keyword arguments. The \<^verbatim>\<open>finally\<close> block runs on every path.
\<close>

definition audit_action ::
  "string \<Rightarrow> string \<Rightarrow> (World \<Rightarrow> (exc + 'a) \<times> World) \<Rightarrow> CurrentUser \<Rightarrow> (string \<rightharpoonup> int) \<Rightarrow>
   World \<Rightarrow> (exc + 'a) \<times> World" where
  "audit_action action resource_type f current_user kwargs w =
     (let resource_id = py_or (py_or (kwargs ''id'') (kwargs ''customer_id'')) (kwargs ''opportunity_id'');
          (result, w1) = f w;
          (success, error_message) =
             (case result of
                Inr r \<Rightarrow> (True, None)
              | Inl (Exception msg) \<Rightarrow> (False, Some msg)
              | Inl (BaseException msg) \<Rightarrow> (True, None))
      in case current_user of
           Anonymous \<Rightarrow> (result, w1)
         | LoggedIn u \<Rightarrow>
             (case log_action (Some u) action resource_type resource_id
                     (Some (action @ '' '' @ resource_type)) success error_message w1 of
                (Inr entry, w2) \<Rightarrow> (result, w2)
              | (Inl (Exception audit_error), w2) \<Rightarrow>
                  (result, w2\<lparr>w_app_log := w_app_log w2 @ [''Audit logging failed: '' @ audit_error]\<rparr>)
              | (Inl (BaseException b), w2) \<Rightarrow> (Inl (BaseException b), w2)))"

section \<open>The organizational tree as the specification describes it\<close>

text \<open>
  The child-of relation of a table, the descendants of a unit (every unit reachable by
  one or more child-of steps), and a unit's ancestors together with itself.
\<close>

definition child_rel :: "OrganizationalUnit list \<Rightarrow> (OrganizationalUnit \<times> OrganizationalUnit) set" where
  "child_rel db = {(c, p). c \<in> set db \<and> p \<in> set db \<and> ou_parent_id c = Some (ou_id p)}"

definition descendantsOf :: "OrganizationalUnit list \<Rightarrow> OrganizationalUnit \<Rightarrow> OrganizationalUnit set" where
  "descendantsOf db unit = {t. (t, unit) \<in> (child_rel db)\<^sup>+}"

definition ancestors_or_self :: "OrganizationalUnit list \<Rightarrow> OrganizationalUnit \<Rightarrow> OrganizationalUnit set" where
  "ancestors_or_self db unit = {a. (unit, a) \<in> (child_rel db)\<^sup>*}"

section \<open>Sample data\<close>

text \<open>
  A small bank: a region with one branch and one team below it, and a second, unrelated
  region; a regional manager and a sales representative; a customer of the team, a deal
  in negotiation and a pending task.
\<close>

definition region_unit :: OrganizationalUnit where
  "region_unit = \<lparr>ou_id = 1, ou_parent_id = None, ou_is_active = True\<rparr>"

definition branch_unit :: OrganizationalUnit where
  "branch_unit = \<lparr>ou_id = 2, ou_parent_id = Some 1, ou_is_active = True\<rparr>"

definition team_unit :: OrganizationalUnit where
  "team_unit = \<lparr>ou_id = 3, ou_parent_id = Some 2, ou_is_active = True\<rparr>"

definition other_unit :: OrganizationalUnit where
  "other_unit = \<lparr>ou_id = 4, ou_parent_id = None, ou_is_active = True\<rparr>"

definition sample_units :: "OrganizationalUnit list" where
  "sample_units = [region_unit, branch_unit, team_unit, other_unit]"

definition regional_manager :: User where
  "regional_manager =
     \<lparr>u_id = 10, u_username = ''regional'', u_access_level = REGIONAL,
      u_organizational_unit_id = 1\<rparr>"

definition sales_rep :: User where
  "sales_rep =
     \<lparr>u_id = 20, u_username = ''sales'', u_access_level = INDIVIDUAL,
      u_organizational_unit_id = 3\<rparr>"

definition sample_customer :: Customer where
  "sample_customer =
     \<lparr>c_id = 100, c_email = Some ''a@b.ba'', c_phone = None, c_mobile = Some ''061'',
      c_stage = PROSPECT, c_qualification_score = 0, c_estimated_assets = Some 50000,
      c_credit_score = Some 700, c_owner_id = 20, c_organizational_unit_id = 3,
      c_suspect_date = Some 1000, c_prospect_date = Some 2000, c_lead_date = None,
      c_customer_date = None, c_last_contact_date = Some 2000\<rparr>"

definition sample_opportunity :: Opportunity where
  "sample_opportunity =
     \<lparr>o_id = 500, o_customer_id = 100, o_stage = NEGOTIATION,
      o_amount = Some (PyNumber 150000), o_probability = Some 60,
      o_expected_revenue = Some (PyNumber 90000), o_actual_revenue = None,
      o_actual_close_date = None, o_owner_id = 20, o_organizational_unit_id = 3,
      o_is_active = True, o_won_date = None, o_lost_date = None, o_lost_reason = None,
      o_lost_notes = None, o_competitor_name = None\<rparr>"

text \<open>The same deal as a row loaded from the database: its money columns are decimals.\<close>

definition loaded_opportunity :: Opportunity where
  "loaded_opportunity =
     sample_opportunity\<lparr>o_amount := Some (PyDecimal 150000),
                         o_expected_revenue := Some (PyDecimal 90000)\<rparr>"

text \<open>
  The product without rounding. On the sample data (150000 at 10, 20, 40, 60, 80 or 100
  percent) the floating-point product is this value.
\<close>

definition exact_product :: "rat \<Rightarrow> int \<Rightarrow> rat" where
  "exact_product a p = a * (of_int p / 100)"

definition sample_task :: Task where
  "sample_task =
     \<lparr>t_id = 900, t_status = PENDING, t_assigned_to_id = 20, t_assigned_by_id = 10,
      t_due_date = 5000, t_is_overdue = False, t_completed_date = None,
      t_escalation_level = 0, t_escalated_to_id = None, t_escalation_date = None\<rparr>"

definition sample_world :: World where
  "sample_world =
     \<lparr>w_audit_logs = [], w_db_available = True, w_app_log = [], w_audit_logger = []\<rparr>"

text \<open>An audited call that raises an exception with the given message.\<close>

definition raising :: "string \<Rightarrow> World \<Rightarrow> (exc + unit) \<times> World" where
  "raising msg w = (Inl (Exception msg), w)"

section \<open>The properties as the specification words them\<close>

text \<open>The invariant of an opportunity: active exactly when the stage is neither WON nor LOST.\<close>

definition is_active_invariant :: "Opportunity \<Rightarrow> bool" where
  "is_active_invariant x = (o_is_active x = (o_stage x \<noteq> WON \<and> o_stage x \<noteq> LOST))"

text \<open>
  The inputs on which the recomputation of the expected revenue multiplies a
  \<^verbatim>\<open>Decimal\<close> by a \<^verbatim>\<open>float\<close>: the new stage has a non-zero probability in the table and
  the amount is a non-zero decimal.
\<close>

definition decimal_times_float :: "Opportunity \<Rightarrow> OpportunityStage \<Rightarrow> bool" where
  "decimal_times_float x S =
     ((case stage_probabilities S of None \<Rightarrow> False | Some p \<Rightarrow> p \<noteq> 0)
      \<and> (case o_amount x of Some (PyDecimal d) \<Rightarrow> d \<noteq> 0 | _ \<Rightarrow> False))"

text \<open>
  The signals of the qualification score. A text is present when it is set and not
  empty, an amount when it is set and not zero (what the source's truth tests accept).
\<close>

definition present_text :: "string option \<Rightarrow> bool" where
  "present_text v = (v \<noteq> None \<and> v \<noteq> Some [])"

definition present_amount :: "'a::zero option \<Rightarrow> bool" where
  "present_amount v = (v \<noteq> None \<and> v \<noteq> Some 0)"

definition credit_above_600 :: "Customer \<Rightarrow> bool" where
  "credit_above_600 c = (case c_credit_score c of None \<Rightarrow> False | Some s \<Rightarrow> s > 600)"

definition has_active_opportunity :: "Opportunity list \<Rightarrow> Customer \<Rightarrow> bool" where
  "has_active_opportunity opportunities c =
     (\<exists>opp \<in> set opportunities. o_customer_id opp = c_id c \<and> o_is_active opp)"

definition contact_points :: "Customer \<Rightarrow> int \<Rightarrow> int" where
  "contact_points c now =
     (case c_last_contact_date c of
        None \<Rightarrow> 0
      | Some t \<Rightarrow> if now - t < 7 * 86400 then 20 else if now - t < 30 * 86400 then 10 else 0)"

definition qualification_points :: "Customer \<Rightarrow> Opportunity list \<Rightarrow> int \<Rightarrow> int" where
  "qualification_points c opportunities now =
     (if present_text (c_email c) then 10 else 0)
   + (if present_text (c_mobile c) \<or> present_text (c_phone c) then 10 else 0)
   + (if present_amount (c_estimated_assets c) then 20 else 0)
   + (if credit_above_600 c then 20 else 0)
   + contact_points c now
   + (if has_active_opportunity opportunities c then 20 else 0)"

text \<open>A deal that was won, and a task that was cancelled.\<close>

definition won_opportunity :: Opportunity where
  "won_opportunity = snd (mark_won exact_product sample_opportunity None 7000)"

definition cancelled_task :: Task where
  "cancelled_task = sample_task\<lparr>t_status := CANCELLED\<rparr>"

section \<open>Theorems\<close>

text \<open>
  C2. For an authenticated user at level INDIVIDUAL and any customer record, viewing
  and editing are allowed exactly when the user owns the record, and deleting and
  reassigning are denied whatever the owner is. No traversal of the unit table takes
  place, so the answer is the same for every table and every stack bound.
\<close>

theorem individual_customer_capabilities:
  assumes "u_access_level u = INDIVIDUAL"
  shows "can_view_customer depth db (LoggedIn u) r = Inr (c_owner_id r = u_id u)
       \<and> can_edit_customer depth db (LoggedIn u) r = Inr (c_owner_id r = u_id u)
       \<and> can_delete_customer depth db (LoggedIn u) r = Inr False
       \<and> can_reassign_customer depth db (LoggedIn u) r = Inr False"
  using assms by (simp add: can_access_customer_def)

theorem individual_customer_capabilities_witness:
  "can_view_customer 0 [] (LoggedIn sales_rep) sample_customer = Inr True
   \<and> can_edit_customer 0 [] (LoggedIn sales_rep) sample_customer = Inr True
   \<and> can_delete_customer 0 [] (LoggedIn sales_rep) sample_customer = Inr False
   \<and> can_reassign_customer 0 [] (LoggedIn sales_rep) sample_customer = Inr False"
proof -
  have level: "u_access_level sales_rep = INDIVIDUAL" by (simp add: sales_rep_def)
  show ?thesis
    using individual_customer_capabilities [OF level, of 0 "[]" sample_customer]
    by (simp add: sales_rep_def sample_customer_def)
qed

subsection \<open>The traversal computes the descendants\<close>

lemma set_children: "p \<in> set db \<Longrightarrow> set (children db p) = {c. (c, p) \<in> child_rel db}"
  by (auto simp: children_def child_rel_def)

lemma extend_children_Some:
  assumes "\<forall>c \<in> set cs. rec c = Some (g c)"
  shows "extend_children rec cs acc = Some (acc @ concat (map (\<lambda>c. c # g c) cs))"
  using assms by (induction cs arbitrary: acc) simp_all

lemma descendants_step:
  "{t. (t, p) \<in> r\<^sup>+} = (\<Union>c \<in> {c. (c, p) \<in> r}. insert c {t. (t, c) \<in> r\<^sup>+})"
  by (auto intro: trancl_into_trancl elim: tranclE)

lemma ancestors_in_table:
  assumes "p \<in> set db"
  shows "ancestors_or_self db p \<subseteq> set db"
proof
  fix a assume "a \<in> ancestors_or_self db p"
  then have "(p, a) \<in> (child_rel db)\<^sup>*" by (simp add: ancestors_or_self_def)
  then show "a \<in> set db"
    using assms by (induction rule: rtrancl_induct) (auto simp: child_rel_def)
qed

lemma card_ancestors_le:
  assumes "p \<in> set db"
  shows "card (ancestors_or_self db p) \<le> length db"
proof -
  have "card (ancestors_or_self db p) \<le> card (set db)"
    by (rule card_mono[OF _ ancestors_in_table[OF assms]]) simp
  also have "\<dots> \<le> length db" by (rule card_length)
  finally show ?thesis .
qed

text \<open>
  In an acyclic table a child has strictly more ancestors than its parent: the parent's,
  and itself. This bounds the depth of the recursion by the size of the table.
\<close>

lemma card_ancestors_child:
  assumes acyc: "acyclic (child_rel db)" and cp: "(c, p) \<in> child_rel db"
  shows "Suc (card (ancestors_or_self db p)) \<le> card (ancestors_or_self db c)"
proof -
  have p: "p \<in> set db" and c: "c \<in> set db" using cp by (auto simp: child_rel_def)
  have fin: "finite (ancestors_or_self db p)"
    by (rule finite_subset[OF ancestors_in_table[OF p]]) simp
  have finc: "finite (ancestors_or_self db c)"
    by (rule finite_subset[OF ancestors_in_table[OF c]]) simp
  have notin: "c \<notin> ancestors_or_self db p"
  proof
    assume "c \<in> ancestors_or_self db p"
    then have "(p, c) \<in> (child_rel db)\<^sup>*" by (simp add: ancestors_or_self_def)
    with cp have "(c, c) \<in> (child_rel db)\<^sup>+" by (rule rtrancl_into_trancl2)
    with acyc show False by (simp add: acyclic_def)
  qed
  have sub: "insert c (ancestors_or_self db p) \<subseteq> ancestors_or_self db c"
    using cp by (auto simp: ancestors_or_self_def intro: converse_rtrancl_into_rtrancl)
  have "Suc (card (ancestors_or_self db p)) = card (insert c (ancestors_or_self db p))"
    using fin notin by simp
  also have "\<dots> \<le> card (ancestors_or_self db c)"
    by (rule card_mono[OF finc sub])
  finally show ?thesis .
qed

lemma get_all_children_descendants:
  assumes acyc: "acyclic (child_rel db)"
  shows "p \<in> set db \<Longrightarrow> length db < depth + card (ancestors_or_self db p) \<Longrightarrow>
         \<exists>cs. get_all_children depth db p = Some cs \<and> set cs = descendantsOf db p"
proof (induction depth arbitrary: p)
  case 0
  then show ?case using card_ancestors_le[of p db] by simp
next
  case (Suc depth)
  have "\<forall>c \<in> set (children db p).
          \<exists>cs. get_all_children depth db c = Some cs \<and> set cs = descendantsOf db c"
  proof
    fix c assume "c \<in> set (children db p)"
    then have cp: "(c, p) \<in> child_rel db" using set_children[OF Suc.prems(1)] by simp
    then have c: "c \<in> set db" by (simp add: child_rel_def)
    have "length db < depth + card (ancestors_or_self db c)"
      using card_ancestors_child[OF acyc cp] Suc.prems(2) by simp
    then show "\<exists>cs. get_all_children depth db c = Some cs \<and> set cs = descendantsOf db c"
      by (rule Suc.IH[OF c])
  qed
  then obtain g where g: "\<forall>c \<in> set (children db p).
      get_all_children depth db c = Some (g c) \<and> set (g c) = descendantsOf db c"
    by metis
  let ?cs = "concat (map (\<lambda>c. c # g c) (children db p))"
  have "extend_children (get_all_children depth db) (children db p) [] = Some ([] @ ?cs)"
    by (rule extend_children_Some) (use g in blast)
  then have "get_all_children (Suc depth) db p = Some ?cs" by simp
  moreover have "set ?cs = descendantsOf db p"
  proof -
    have "set ?cs = (\<Union>c \<in> set (children db p). insert c (descendantsOf db c))"
      using g by auto
    also have "\<dots> = descendantsOf db p"
      unfolding descendantsOf_def set_children[OF Suc.prems(1)]
      by (rule descendants_step[symmetric])
    finally show ?thesis .
  qed
  ultimately show ?case by blast
qed

lemma get_all_children_enough:
  assumes "acyclic (child_rel db)" and "p \<in> set db" and "length db \<le> depth"
  shows "\<exists>cs. get_all_children depth db p = Some cs \<and> set cs = descendantsOf db p"
proof -
  have "p \<in> ancestors_or_self db p" by (simp add: ancestors_or_self_def)
  moreover have "finite (ancestors_or_self db p)"
    by (rule finite_subset[OF ancestors_in_table[OF assms(2)]]) simp
  ultimately have "0 < card (ancestors_or_self db p)" by (auto simp: card_gt_0_iff)
  with assms(3) have "length db < depth + card (ancestors_or_self db p)" by simp
  from get_all_children_descendants[OF assms(1,2) this] show ?thesis .
qed

lemma query_get_distinct:
  assumes "distinct (map ou_id db)" and "p \<in> set db"
  shows "query_get db (ou_id p) = Some p"
  using assms unfolding query_get_def
  by (induction db) (auto simp: image_iff)

lemma distinct_ids_eq:
  assumes "distinct (map ou_id db)" and "p \<in> set db" and "q \<in> set db" and "ou_id p = ou_id q"
  shows "p = q"
  using assms by (metis distinct_map inj_onD)

text \<open>A table whose parent links all lead to a unit of higher rank has no cycle.\<close>

lemma acyclic_child_rel_rank:
  fixes rank :: "OrganizationalUnit \<Rightarrow> nat"
  assumes "\<forall>c \<in> set db. \<forall>p \<in> set db. ou_parent_id c = Some (ou_id p) \<longrightarrow> rank c < rank p"
  shows "acyclic (child_rel db)"
proof -
  have "child_rel db \<subseteq> measure rank" using assms by (auto simp: child_rel_def)
  then have "wf (child_rel db)" by (rule wf_subset[OF wf_measure])
  then show ?thesis by (rule wf_acyclic)
qed

lemma can_access_own_unit:
  "can_access_organizational_unit depth db u (u_organizational_unit_id u) = Inr True"
  by (simp add: can_access_organizational_unit_def)

lemma can_access_other_unit:
  assumes level: "u_access_level u = REGIONAL \<or> u_access_level u = BRANCH"
    and ne: "u_organizational_unit_id u \<noteq> i"
    and target: "query_get db i = Some target_unit"
    and own: "query_get db (u_organizational_unit_id u) = Some own"
    and cs: "get_all_children depth db own = Some cs"
  shows "can_access_organizational_unit depth db u i = Inr (target_unit \<in> set cs)"
proof -
  have "u_access_level u \<noteq> EXECUTIVE" using level by auto
  moreover have "u_access_level u \<in> {REGIONAL, BRANCH}" using level by auto
  ultimately show ?thesis
    unfolding can_access_organizational_unit_def
    using ne target own cs by simp
qed

text \<open>
  C1. Let the unit table have unique ids and an acyclic parent graph, let the user be
  authenticated at level REGIONAL or BRANCH with \<open>own\<close> as unit, and let the customer
  record belong to the unit \<open>U\<close> of the table. With a call stack at least as deep as the
  table is long, viewing the record is allowed exactly when \<open>U\<close> is the user's own unit
  or one of its descendants in the tree.
\<close>

theorem regional_branch_view_iff_descendant:
  assumes ids: "distinct (map ou_id db)"
    and acyc: "acyclic (child_rel db)"
    and level: "u_access_level u = REGIONAL \<or> u_access_level u = BRANCH"
    and own: "own \<in> set db" "u_organizational_unit_id u = ou_id own"
    and U: "U \<in> set db" "c_organizational_unit_id r = ou_id U"
    and depth: "length db \<le> depth"
  shows "can_view_customer depth db (LoggedIn u) r = Inr (U = own \<or> U \<in> descendantsOf db own)"
proof -
  have ni: "u_access_level u \<noteq> INDIVIDUAL" using level by auto
  have view: "can_view_customer depth db (LoggedIn u) r
      = can_access_organizational_unit depth db u (ou_id U)"
    using ni U(2) by (simp add: can_access_customer_def)
  show ?thesis
  proof (cases "ou_id own = ou_id U")
    case True
    then have "U = own" using distinct_ids_eq[OF ids own(1) U(1)] by simp
    moreover have "can_access_organizational_unit depth db u (ou_id U) = Inr True"
      using can_access_own_unit[of depth db u] own(2) True by simp
    ultimately show ?thesis using view by simp
  next
    case False
    then have ne: "U \<noteq> own" by auto
    from get_all_children_enough[OF acyc own(1) depth] obtain cs where
      cs: "get_all_children depth db own = Some cs" "set cs = descendantsOf db own" by blast
    have ne_id: "u_organizational_unit_id u \<noteq> ou_id U" using False own(2) by simp
    have q1: "query_get db (ou_id U) = Some U" by (rule query_get_distinct[OF ids U(1)])
    have q2: "query_get db (u_organizational_unit_id u) = Some own"
      using query_get_distinct[OF ids own(1)] own(2) by simp
    have "can_access_organizational_unit depth db u (ou_id U) = Inr (U \<in> set cs)"
      by (rule can_access_other_unit[OF level ne_id q1 q2 cs(1)])
    then show ?thesis using view ne cs(2) by simp
  qed
qed

text \<open>
  The regional manager may view the customer of the team two levels below the region,
  and may not view a customer of the unrelated region.
\<close>

theorem regional_branch_view_iff_descendant_witness:
  "can_view_customer 4 sample_units (LoggedIn regional_manager) sample_customer = Inr True
   \<and> can_view_customer 4 sample_units (LoggedIn regional_manager)
        (sample_customer\<lparr>c_organizational_unit_id := 4\<rparr>) = Inr False"
proof -
  have ids: "distinct (map ou_id sample_units)"
    by (simp add: sample_units_def region_unit_def branch_unit_def team_unit_def other_unit_def)
  have "\<forall>c \<in> set sample_units. \<forall>p \<in> set sample_units.
          ou_parent_id c = Some (ou_id p) \<longrightarrow> nat (10 - ou_id c) < nat (10 - ou_id p)"
    by (simp add: sample_units_def region_unit_def branch_unit_def team_unit_def other_unit_def)
  then have acyc: "acyclic (child_rel sample_units)" by (rule acyclic_child_rel_rank)
  have level: "u_access_level regional_manager = REGIONAL \<or> u_access_level regional_manager = BRANCH"
    by (simp add: regional_manager_def)
  have own: "region_unit \<in> set sample_units"
    "u_organizational_unit_id regional_manager = ou_id region_unit"
    by (simp_all add: sample_units_def regional_manager_def region_unit_def)
  have team: "team_unit \<in> set sample_units" "c_organizational_unit_id sample_customer = ou_id team_unit"
    by (simp_all add: sample_units_def sample_customer_def team_unit_def)
  have other: "other_unit \<in> set sample_units"
    "c_organizational_unit_id (sample_customer\<lparr>c_organizational_unit_id := 4\<rparr>) = ou_id other_unit"
    by (simp_all add: sample_units_def other_unit_def)
  have depth: "length sample_units \<le> 4" by (simp add: sample_units_def)
  have tb: "(team_unit, branch_unit) \<in> child_rel sample_units"
    by (simp add: child_rel_def sample_units_def team_unit_def branch_unit_def)
  have br: "(branch_unit, region_unit) \<in> child_rel sample_units"
    by (simp add: child_rel_def sample_units_def region_unit_def branch_unit_def)
  have desc: "team_unit \<in> descendantsOf sample_units region_unit"
    using tb br by (auto simp: descendantsOf_def)
  have root: "\<And>x. (other_unit, x) \<notin> child_rel sample_units"
    by (simp add: child_rel_def other_unit_def)
  have "(other_unit, region_unit) \<notin> (child_rel sample_units)\<^sup>+"
    using root by (auto elim: converse_tranclE)
  then have ndesc: "other_unit \<notin> descendantsOf sample_units region_unit"
    by (simp add: descendantsOf_def)
  have ne: "other_unit \<noteq> region_unit" by (simp add: other_unit_def region_unit_def)
  show ?thesis
    using regional_branch_view_iff_descendant [OF ids acyc level own team depth]
      regional_branch_view_iff_descendant [OF ids acyc level own other depth]
      desc ndesc ne
    by simp
qed

subsection \<open>Opportunity lifecycle\<close>

text \<open>
  \<^verbatim>\<open>update_expected_revenue\<close> raises exactly on a non-zero decimal amount with a
  non-zero probability, and then assigns nothing; otherwise it returns, and it never
  touches anything but the expected revenue.
\<close>

lemma update_expected_revenue_raises:
  assumes "o_amount y = Some (PyDecimal d)" and "d \<noteq> 0"
    and "o_probability y = Some p" and "p \<noteq> 0"
  shows "update_expected_revenue float_product y = (Some TypeError, y)"
  using assms by (simp add: update_expected_revenue_def truthy_money_def truthy_num_def)

lemma update_expected_revenue_number:
  assumes "o_amount y = Some (PyNumber a)" and "a \<noteq> 0"
    and "o_probability y = Some p" and "p \<noteq> 0"
  shows "update_expected_revenue float_product y
           = (None, y\<lparr>o_expected_revenue := Some (PyNumber (float_product a p))\<rparr>)"
  using assms by (simp add: update_expected_revenue_def truthy_money_def truthy_num_def)

lemma update_expected_revenue_skips:
  assumes "\<not> truthy_money (o_amount y) \<or> \<not> truthy_num (o_probability y)"
  shows "update_expected_revenue float_product y = (None, y)"
  using assms by (auto simp: update_expected_revenue_def)

lemma update_expected_revenue_returns:
  assumes "o_probability y = Some p"
    and "\<not> (p \<noteq> 0 \<and> (case o_amount y of Some (PyDecimal d) \<Rightarrow> d \<noteq> 0 | _ \<Rightarrow> False))"
  shows "\<exists>er. update_expected_revenue float_product y = (None, y\<lparr>o_expected_revenue := er\<rparr>)"
proof (cases "truthy_money (o_amount y) \<and> truthy_num (o_probability y)")
  case False
  then have "update_expected_revenue float_product y = (None, y)"
    using update_expected_revenue_skips[where y = y and float_product = float_product] by blast
  then have "update_expected_revenue float_product y
               = (None, y\<lparr>o_expected_revenue := o_expected_revenue y\<rparr>)" by simp
  then show ?thesis by blast
next
  case True
  then have p: "p \<noteq> 0" using assms(1) by (simp add: truthy_num_def)
  from True obtain m where m: "o_amount y = Some m" "money_value m \<noteq> 0"
    by (cases "o_amount y") (auto simp: truthy_money_def)
  show ?thesis
  proof (cases m)
    case (PyNumber a)
    then show ?thesis
      using update_expected_revenue_number[where y = y and a = a and p = p
          and float_product = float_product] m assms(1) p by auto
  next
    case (PyDecimal d)
    then show ?thesis using assms(2) m p by simp
  qed
qed

text \<open>
  \<^verbatim>\<open>advance_stage\<close> on an input that multiplies a decimal by a float: the exception
  leaves the object with the new stage and probability and nothing else changed.
\<close>

lemma advance_stage_raises:
  assumes "decimal_times_float x S"
  shows "opportunity_advance_stage float_product x S now
           = (Some TypeError, x\<lparr>o_stage := S, o_probability := stage_probabilities S\<rparr>)"
proof -
  from assms obtain p where p: "stage_probabilities S = Some p" "p \<noteq> 0"
    by (cases "stage_probabilities S") (auto simp: decimal_times_float_def)
  from assms obtain d where d: "o_amount x = Some (PyDecimal d)" "d \<noteq> 0"
    by (auto simp: decimal_times_float_def split: option.splits money.splits)
  have "update_expected_revenue float_product (x\<lparr>o_stage := S, o_probability := Some p\<rparr>)
          = (Some TypeError, x\<lparr>o_stage := S, o_probability := Some p\<rparr>)"
    by (rule update_expected_revenue_raises[where d = d and p = p]) (use d p in simp_all)
  then show ?thesis
    by (simp add: opportunity_advance_stage_def Let_def p)
qed

text \<open>On every other input it returns, in the shape the three branches give.\<close>

lemma advance_stage_returns:
  assumes "\<not> decimal_times_float x S"
  shows "\<exists>pr er. opportunity_advance_stage float_product x S now =
           (None,
            if S = WON then
              x\<lparr>o_stage := S, o_probability := pr, o_expected_revenue := er,
                o_is_active := False, o_won_date := Some now,
                o_actual_close_date := Some (date_of now), o_actual_revenue := o_amount x\<rparr>
            else if S = LOST then
              x\<lparr>o_stage := S, o_probability := pr, o_expected_revenue := er,
                o_is_active := False, o_lost_date := Some now,
                o_actual_close_date := Some (date_of now)\<rparr>
            else x\<lparr>o_stage := S, o_probability := pr, o_expected_revenue := er\<rparr>)"
proof (cases "stage_probabilities S")
  case None
  then have S: "S = POST_SALE" by (cases S) simp_all
  have "opportunity_advance_stage float_product x S now = (None, x\<lparr>o_stage := S\<rparr>)"
    by (simp add: opportunity_advance_stage_def Let_def S)
  then have "opportunity_advance_stage float_product x S now =
      (None, x\<lparr>o_stage := S, o_probability := o_probability x,
               o_expected_revenue := o_expected_revenue x\<rparr>)" by simp
  then show ?thesis
    using S by (intro exI[of _ "o_probability x"] exI[of _ "o_expected_revenue x"]) simp
next
  case (Some p)
  let ?y = "x\<lparr>o_stage := S, o_probability := Some p\<rparr>"
  have "\<not> (p \<noteq> 0 \<and> (case o_amount ?y of Some (PyDecimal d) \<Rightarrow> d \<noteq> 0 | _ \<Rightarrow> False))"
    using assms Some by (simp add: decimal_times_float_def)
  moreover have "o_probability ?y = Some p" by simp
  ultimately obtain er where er: "update_expected_revenue float_product ?y
      = (None, ?y\<lparr>o_expected_revenue := er\<rparr>)"
    using update_expected_revenue_returns[where y = ?y and p = p and float_product = float_product]
    by blast
  have "opportunity_advance_stage float_product x S now =
           (None,
            if S = WON then
              x\<lparr>o_stage := S, o_probability := Some p, o_expected_revenue := er,
                o_is_active := False, o_won_date := Some now,
                o_actual_close_date := Some (date_of now), o_actual_revenue := o_amount x\<rparr>
            else if S = LOST then
              x\<lparr>o_stage := S, o_probability := Some p, o_expected_revenue := er,
                o_is_active := False, o_lost_date := Some now,
                o_actual_close_date := Some (date_of now)\<rparr>
            else x\<lparr>o_stage := S, o_probability := Some p, o_expected_revenue := er\<rparr>)"
    by (simp add: opportunity_advance_stage_def Let_def Some er)
  then show ?thesis by blast
qed

lemma advance_stage_fst:
  "fst (opportunity_advance_stage float_product x S now)
     = (if decimal_times_float x S then Some TypeError else None)"
proof (cases "decimal_times_float x S")
  case True
  then show ?thesis
    using advance_stage_raises[where x = x and S = S
        and float_product = float_product and now = now] by simp
next
  case False
  then show ?thesis
    using advance_stage_returns[where x = x and S = S
        and float_product = float_product and now = now] by auto
qed

lemma advance_stage_stage: "o_stage (snd (opportunity_advance_stage float_product x S now)) = S"
proof (cases "decimal_times_float x S")
  case True
  then show ?thesis
    using advance_stage_raises[where x = x and S = S
        and float_product = float_product and now = now] by simp
next
  case False
  then show ?thesis
    using advance_stage_returns[where x = x and S = S
        and float_product = float_product and now = now] by auto
qed

lemma advance_stage_amount:
  "o_amount (snd (opportunity_advance_stage float_product x S now)) = o_amount x"
proof (cases "decimal_times_float x S")
  case True
  then show ?thesis
    using advance_stage_raises[where x = x and S = S
        and float_product = float_product and now = now] by simp
next
  case False
  then show ?thesis
    using advance_stage_returns[where x = x and S = S
        and float_product = float_product and now = now] by auto
qed

lemma advance_stage_is_active:
  "o_is_active (snd (opportunity_advance_stage float_product x S now))
     = (o_is_active x \<and> (decimal_times_float x S \<or> S \<noteq> WON \<and> S \<noteq> LOST))"
proof (cases "decimal_times_float x S")
  case True
  then show ?thesis
    using advance_stage_raises[where x = x and S = S
        and float_product = float_product and now = now] by simp
next
  case False
  from advance_stage_returns[OF False, where float_product = float_product and now = now]
  obtain pr er where eq: "opportunity_advance_stage float_product x S now =
           (None,
            if S = WON then
              x\<lparr>o_stage := S, o_probability := pr, o_expected_revenue := er,
                o_is_active := False, o_won_date := Some now,
                o_actual_close_date := Some (date_of now), o_actual_revenue := o_amount x\<rparr>
            else if S = LOST then
              x\<lparr>o_stage := S, o_probability := pr, o_expected_revenue := er,
                o_is_active := False, o_lost_date := Some now,
                o_actual_close_date := Some (date_of now)\<rparr>
            else x\<lparr>o_stage := S, o_probability := pr, o_expected_revenue := er\<rparr>)"
    by blast
  show ?thesis unfolding eq using False by simp
qed

lemma advance_stage_actual_revenue_won:
  assumes "\<not> decimal_times_float x WON"
  shows "o_actual_revenue (snd (opportunity_advance_stage float_product x WON now)) = o_amount x"
  using advance_stage_returns[OF assms, where float_product = float_product and now = now] by auto

lemma no_decimal_times_float_lost: "\<not> decimal_times_float x LOST"
  by (simp add: decimal_times_float_def)

lemma no_decimal_times_float_post_sale: "\<not> decimal_times_float x POST_SALE"
  by (simp add: decimal_times_float_def)

text \<open>
  Where the amount is an in-memory number and it and the stage's probability are both
  non-zero, the stage change stores the table's probability and the floating-point
  product as expected revenue.
\<close>

lemma advance_stage_expected_revenue:
  assumes "stage_probabilities S = Some p" and "p \<noteq> 0"
    and "o_amount x = Some (PyNumber a)" and "a \<noteq> 0"
  shows "fst (opportunity_advance_stage float_product x S now) = None
       \<and> o_probability (snd (opportunity_advance_stage float_product x S now)) = Some p
       \<and> o_expected_revenue (snd (opportunity_advance_stage float_product x S now))
            = Some (PyNumber (float_product a p))"
proof -
  have "update_expected_revenue float_product (x\<lparr>o_stage := S, o_probability := Some p\<rparr>)
          = (None, x\<lparr>o_stage := S, o_probability := Some p,
                     o_expected_revenue := Some (PyNumber (float_product a p))\<rparr>)"
    using update_expected_revenue_number[where y = "x\<lparr>o_stage := S, o_probability := Some p\<rparr>"
        and a = a and p = p and float_product = float_product] assms by simp
  then show ?thesis
    by (simp add: opportunity_advance_stage_def Let_def assms(1))
qed

text \<open>
  C3. The claim asks, for every stage of the table, for the table's probability and for
  an expected revenue of amount times probability over 100. For LOST the table gives
  probability 0, and \<^verbatim>\<open>update_expected_revenue\<close> only assigns under
  \<^verbatim>\<open>if self.amount and self.probability\<close>: a deal of 150000 at 60 percent, with
  expected revenue 90000, moved to LOST keeps the expected revenue 90000 next to
  probability 0, where the claim gives 0. This is so for the object in memory and for
  the row loaded from the database, and whatever the floating-point product is.
\<close>

theorem advance_stage_lost_keeps_expected_revenue:
  "fst (opportunity_advance_stage float_product sample_opportunity LOST 7000) = None
   \<and> o_amount (snd (opportunity_advance_stage float_product sample_opportunity LOST 7000))
        = Some (PyNumber 150000)
   \<and> o_probability (snd (opportunity_advance_stage float_product sample_opportunity LOST 7000))
        = Some 0
   \<and> o_expected_revenue (snd (opportunity_advance_stage float_product sample_opportunity LOST 7000))
        = Some (PyNumber 90000)
   \<and> fst (opportunity_advance_stage float_product loaded_opportunity LOST 7000) = None
   \<and> o_probability (snd (opportunity_advance_stage float_product loaded_opportunity LOST 7000))
        = Some 0
   \<and> o_expected_revenue (snd (opportunity_advance_stage float_product loaded_opportunity LOST 7000))
        = Some (PyDecimal 90000)"
  by (simp add: opportunity_advance_stage_def update_expected_revenue_def truthy_num_def
      truthy_money_def sample_opportunity_def loaded_opportunity_def)

subsection \<open>Winning and losing a deal\<close>

lemma mark_won_fst:
  "fst (mark_won float_product x v now)
     = (if decimal_times_float x WON then Some TypeError else None)"
proof (cases "decimal_times_float x WON")
  case True
  then show ?thesis
   
    using advance_stage_raises[where x = x and S = WON
        and float_product = float_product and now = now] by (simp add: mark_won_def)
next
  case False
  then show ?thesis
   
    using advance_stage_returns[where x = x and S = WON
        and float_product = float_product and now = now]
    by (auto simp: mark_won_def)
qed

lemma mark_won_state:
  "o_stage (snd (mark_won float_product x v now)) = WON"
  "o_is_active (snd (mark_won float_product x v now))
     = (o_is_active x \<and> decimal_times_float x WON)"
proof -
  obtain e s1 where r: "opportunity_advance_stage float_product x WON now = (e, s1)"
    by (cases "opportunity_advance_stage float_product x WON now")
  have s1: "o_stage s1 = WON" "o_is_active s1 = (o_is_active x \<and> decimal_times_float x WON)"
    using advance_stage_stage[where float_product = float_product and x = x and S = WON and now = now]
      advance_stage_is_active[where float_product = float_product and x = x and S = WON and now = now] r by simp_all
  show "o_stage (snd (mark_won float_product x v now)) = WON"
    using r s1 by (cases e) (simp_all add: mark_won_def)
  show "o_is_active (snd (mark_won float_product x v now))
     = (o_is_active x \<and> decimal_times_float x WON)"
    using r s1 by (cases e) (simp_all add: mark_won_def)
qed

lemma mark_lost_state:
  "fst (mark_lost float_product x reason notes competitor now) = None"
  "o_stage (snd (mark_lost float_product x reason notes competitor now)) = LOST"
  "\<not> o_is_active (snd (mark_lost float_product x reason notes competitor now))"
proof -
  obtain e s1 where r: "opportunity_advance_stage float_product x LOST now = (e, s1)"
    by (cases "opportunity_advance_stage float_product x LOST now")
  have e: "e = None"
    using advance_stage_fst[where float_product = float_product and x = x and S = LOST and now = now] r no_decimal_times_float_lost[of x]
    by simp
  have s1: "o_stage s1 = LOST" "\<not> o_is_active s1"
    using advance_stage_stage[where float_product = float_product and x = x and S = LOST and now = now]
      advance_stage_is_active[where float_product = float_product and x = x and S = LOST and now = now] r no_decimal_times_float_lost[of x]
    by simp_all
  show "fst (mark_lost float_product x reason notes competitor now) = None"
    using r e by (simp add: mark_lost_def)
  show "o_stage (snd (mark_lost float_product x reason notes competitor now)) = LOST"
    using r e s1 by (simp add: mark_lost_def)
  show "\<not> o_is_active (snd (mark_lost float_product x reason notes competitor now))"
    using r e s1 by (simp add: mark_lost_def)
qed

text \<open>
  Where \<^verbatim>\<open>mark_won\<close> returns: without an argument the revenue is the amount, and a
  non-zero argument replaces it.
\<close>

lemma mark_won_actual_revenue:
  assumes "\<not> decimal_times_float x WON"
  shows "o_actual_revenue (snd (mark_won float_product x None now)) = o_amount x"
    and "money_value v \<noteq> 0 \<Longrightarrow>
         o_actual_revenue (snd (mark_won float_product x (Some v) now)) = Some v"
proof -
  obtain e s1 where r: "opportunity_advance_stage float_product x WON now = (e, s1)"
    by (cases "opportunity_advance_stage float_product x WON now")
  have e: "e = None" using advance_stage_fst[where float_product = float_product and x = x and S = WON and now = now] r assms by simp
  have s1: "o_actual_revenue s1 = o_amount x"
    using advance_stage_actual_revenue_won[OF assms, where float_product = float_product and now = now] r by simp
  show "o_actual_revenue (snd (mark_won float_product x None now)) = o_amount x"
    using r e s1 by (simp add: mark_won_def truthy_money_def)
  show "money_value v \<noteq> 0 \<Longrightarrow>
         o_actual_revenue (snd (mark_won float_product x (Some v) now)) = Some v"
    using r e by (simp add: mark_won_def truthy_money_def)
qed

text \<open>
  On the row loaded from the database \<^verbatim>\<open>mark_won\<close> raises: the deal is left in stage
  WON with probability 100, still active, and the invariant is broken.
\<close>

lemma mark_won_loaded_row_raises:
  "mark_won float_product loaded_opportunity v 7000
     = (Some TypeError, loaded_opportunity\<lparr>o_stage := WON, o_probability := Some 100\<rparr>)
   \<and> is_active_invariant loaded_opportunity
   \<and> \<not> is_active_invariant (snd (mark_won float_product loaded_opportunity v 7000))"
proof -
  have d: "decimal_times_float loaded_opportunity WON"
    by (simp add: decimal_times_float_def loaded_opportunity_def sample_opportunity_def)
  have r: "mark_won float_product loaded_opportunity v 7000
     = (Some TypeError, loaded_opportunity\<lparr>o_stage := WON, o_probability := Some 100\<rparr>)"
    using advance_stage_raises[OF d, where float_product = float_product and now = 7000] by (simp add: mark_won_def)
  have "is_active_invariant loaded_opportunity"
    by (simp add: is_active_invariant_def loaded_opportunity_def sample_opportunity_def)
  moreover have "\<not> is_active_invariant (snd (mark_won float_product loaded_opportunity v 7000))"
    unfolding r by (simp add: is_active_invariant_def loaded_opportunity_def sample_opportunity_def)
  ultimately show ?thesis using r by simp
qed

text \<open>
  C8. The claim asks that an explicitly supplied actual revenue, zero included, is what
  \<^verbatim>\<open>mark_won\<close> stores. The argument is tested with \<^verbatim>\<open>if actual_revenue:\<close>, which is
  false for zero: on a deal of 150000, \<^verbatim>\<open>mark_won(actual_revenue=0)\<close> leaves the actual
  revenue at 150000. On the row loaded from the database the call raises before the
  test is reached and the actual revenue stays unset.
\<close>

theorem mark_won_zero_revenue_ignored:
  "o_amount sample_opportunity = Some (PyNumber 150000)
   \<and> fst (mark_won float_product sample_opportunity (Some (PyNumber 0)) 7000) = None
   \<and> o_actual_revenue (snd (mark_won float_product sample_opportunity (Some (PyNumber 0)) 7000))
        = Some (PyNumber 150000)
   \<and> fst (mark_won float_product loaded_opportunity (Some (PyNumber 0)) 7000) = Some TypeError
   \<and> o_actual_revenue (snd (mark_won float_product loaded_opportunity (Some (PyNumber 0)) 7000))
        = None"
  by (simp add: mark_won_def opportunity_advance_stage_def update_expected_revenue_def
      truthy_num_def truthy_money_def sample_opportunity_def loaded_opportunity_def)

subsection \<open>The activity invariant\<close>

text \<open>
  C4, as stated, fails: a won deal satisfies the invariant, and moving it on to
  POST_SALE returns and leaves it inactive although its stage is no longer WON or LOST.
\<close>

theorem is_active_invariant_counterexample:
  "is_active_invariant won_opportunity
   \<and> fst (opportunity_advance_stage exact_product won_opportunity POST_SALE 8000) = None
   \<and> \<not> is_active_invariant (snd (opportunity_advance_stage exact_product won_opportunity
          POST_SALE 8000))"
proof -
  have n: "\<not> decimal_times_float sample_opportunity WON"
    by (simp add: decimal_times_float_def sample_opportunity_def)
  have won: "o_stage won_opportunity = WON" "\<not> o_is_active won_opportunity"
    using n by (simp_all add: won_opportunity_def mark_won_state)
  show ?thesis
    using won
    by (simp add: is_active_invariant_def advance_stage_fst advance_stage_stage
        advance_stage_is_active no_decimal_times_float_post_sale)
qed

text \<open>
  C4, amended. Let the opportunity satisfy the invariant. \<^verbatim>\<open>mark_lost\<close> always returns,
  and the invariant holds after it. \<^verbatim>\<open>advance_stage\<close> and \<^verbatim>\<open>mark_won\<close> return unless
  the new stage has a non-zero table probability and the amount is a non-zero decimal;
  where they return, the invariant holds after \<^verbatim>\<open>mark_won\<close>, and after
  \<^verbatim>\<open>advance_stage\<close> whenever the opportunity was not yet WON or LOST or the new stage is
  WON or LOST. From WON or LOST, \<^verbatim>\<open>advance_stage\<close> to any stage leaves the opportunity
  inactive: no lifecycle operation sets \<^verbatim>\<open>is_active\<close> back to true.
\<close>

theorem is_active_invariant_lifecycle:
  assumes inv: "is_active_invariant x"
  shows "(\<not> decimal_times_float x S \<longrightarrow>
            fst (opportunity_advance_stage float_product x S now) = None)
       \<and> (\<not> decimal_times_float x S
            \<and> (o_stage x \<noteq> WON \<and> o_stage x \<noteq> LOST \<or> S = WON \<or> S = LOST)
            \<longrightarrow> is_active_invariant (snd (opportunity_advance_stage float_product x S now)))
       \<and> (\<not> decimal_times_float x WON \<longrightarrow>
            fst (mark_won float_product x v now) = None
            \<and> is_active_invariant (snd (mark_won float_product x v now)))
       \<and> fst (mark_lost float_product x reason notes competitor now) = None
       \<and> is_active_invariant (snd (mark_lost float_product x reason notes competitor now))
       \<and> (o_stage x = WON \<or> o_stage x = LOST
            \<longrightarrow> \<not> o_is_active (snd (opportunity_advance_stage float_product x S now)))"
proof -
  have 1: "\<not> decimal_times_float x S \<longrightarrow>
            fst (opportunity_advance_stage float_product x S now) = None"
    by (simp add: advance_stage_fst)
  have 2: "\<not> decimal_times_float x S
            \<and> (o_stage x \<noteq> WON \<and> o_stage x \<noteq> LOST \<or> S = WON \<or> S = LOST)
            \<longrightarrow> is_active_invariant (snd (opportunity_advance_stage float_product x S now))"
    using inv by (auto simp: is_active_invariant_def advance_stage_stage advance_stage_is_active)
  have 3: "\<not> decimal_times_float x WON \<longrightarrow>
            fst (mark_won float_product x v now) = None
            \<and> is_active_invariant (snd (mark_won float_product x v now))"
    by (simp add: is_active_invariant_def mark_won_fst mark_won_state)
  have 4: "fst (mark_lost float_product x reason notes competitor now) = None
       \<and> is_active_invariant (snd (mark_lost float_product x reason notes competitor now))"
    by (simp add: is_active_invariant_def mark_lost_state)
  have 5: "o_stage x = WON \<or> o_stage x = LOST
            \<longrightarrow> \<not> o_is_active (snd (opportunity_advance_stage float_product x S now))"
    using inv by (auto simp: is_active_invariant_def advance_stage_is_active)
  from 1 2 3 4 5 show ?thesis by blast
qed

theorem is_active_invariant_lifecycle_witness:
  "is_active_invariant sample_opportunity
   \<and> fst (opportunity_advance_stage exact_product sample_opportunity CLOSING 7000) = None
   \<and> is_active_invariant (snd (opportunity_advance_stage exact_product sample_opportunity
        CLOSING 7000))
   \<and> fst (mark_won exact_product sample_opportunity (Some (PyNumber 120000)) 7000) = None
   \<and> is_active_invariant (snd (mark_won exact_product sample_opportunity
        (Some (PyNumber 120000)) 7000))
   \<and> is_active_invariant (snd (mark_lost exact_product sample_opportunity PRICE None None 7000))"
proof -
  have inv: "is_active_invariant sample_opportunity"
    by (simp add: is_active_invariant_def sample_opportunity_def)
  have n: "\<not> decimal_times_float sample_opportunity CLOSING"
    "\<not> decimal_times_float sample_opportunity WON"
    by (simp_all add: decimal_times_float_def sample_opportunity_def)
  have "o_stage sample_opportunity \<noteq> WON \<and> o_stage sample_opportunity \<noteq> LOST"
    by (simp add: sample_opportunity_def)
  then show ?thesis
    using inv n
      is_active_invariant_lifecycle [OF inv, where S = CLOSING
        and float_product = exact_product and now = 7000 and v = "Some (PyNumber 120000)"
        and reason = PRICE and ?notes = None and competitor = None]
    by simp
qed

subsection \<open>Customer lifecycle\<close>

text \<open>
  C5, as stated, fails: a customer whose prospect timestamp is already set gets a new
  one on entering PROSPECT again.
\<close>

theorem customer_timestamp_counterexample:
  "c_prospect_date sample_customer = Some 2000
   \<and> c_prospect_date (customer_advance_stage sample_customer PROSPECT 9000) = Some 9000"
  by (simp add: customer_advance_stage_def sample_customer_def)

text \<open>
  C5, amended. \<^verbatim>\<open>advance_stage\<close> to PROSPECT, LEAD or CUSTOMER sets that stage's
  timestamp to the current time on every call, whether or not it was set before; every
  other stage timestamp keeps its value, and no transition to any stage clears a
  timestamp that was set.
\<close>

theorem customer_advance_stage_timestamps:
  "c_stage (customer_advance_stage c S now) = S
   \<and> c_suspect_date (customer_advance_stage c S now) = c_suspect_date c
   \<and> c_prospect_date (customer_advance_stage c S now)
        = (if S = PROSPECT then Some now else c_prospect_date c)
   \<and> c_lead_date (customer_advance_stage c S now)
        = (if S = LEAD then Some now else c_lead_date c)
   \<and> c_customer_date (customer_advance_stage c S now)
        = (if S = CUSTOMER then Some now else c_customer_date c)
   \<and> (c_suspect_date c \<noteq> None \<longrightarrow> c_suspect_date (customer_advance_stage c S now) \<noteq> None)
   \<and> (c_prospect_date c \<noteq> None \<longrightarrow> c_prospect_date (customer_advance_stage c S now) \<noteq> None)
   \<and> (c_lead_date c \<noteq> None \<longrightarrow> c_lead_date (customer_advance_stage c S now) \<noteq> None)
   \<and> (c_customer_date c \<noteq> None \<longrightarrow> c_customer_date (customer_advance_stage c S now) \<noteq> None)"
  by (simp add: customer_advance_stage_def Let_def)

theorem customer_advance_stage_timestamps_witness:
  "c_prospect_date sample_customer \<noteq> None
   \<and> c_prospect_date (customer_advance_stage sample_customer LEAD 9000) = Some 2000
   \<and> c_lead_date (customer_advance_stage sample_customer LEAD 9000) = Some 9000
   \<and> c_suspect_date (customer_advance_stage sample_customer LEAD 9000) \<noteq> None"
proof -
  have set: "c_prospect_date sample_customer \<noteq> None" "c_suspect_date sample_customer \<noteq> None"
    by (simp_all add: sample_customer_def)
  have "c_prospect_date sample_customer = Some 2000" by (simp add: sample_customer_def)
  then show ?thesis
    using set customer_advance_stage_timestamps [of sample_customer LEAD 9000]
    by simp
qed

subsection \<open>Qualification score\<close>

lemma truthy_str_present: "truthy_str v = present_text v"
  by (cases v) (simp_all add: truthy_str_def present_text_def)

lemma truthy_num_present: "truthy_num v = present_amount v"
  by (cases v) (simp_all add: truthy_num_def present_amount_def)

lemma days_since_less: "(days_since now t < n) = (now - t < n * 86400)"
proof -
  define x where "x = now - t"
  define q where "q = x div 86400"
  define r where "r = x mod 86400"
  have "x = 86400 * q + r" "0 \<le> r" "r < 86400" by (simp_all add: q_def r_def)
  then have "(q < n) = (x < n * 86400)" by linarith
  then show ?thesis by (simp add: q_def x_def days_since_def)
qed

lemma active_count_pos:
  "(active_opportunity_count opportunities c > 0) = has_active_opportunity opportunities c"
  by (auto simp: active_opportunity_count_def has_active_opportunity_def filter_empty_conv)

lemma credit_condition:
  "(truthy_num (c_credit_score c) \<and> (case c_credit_score c of None \<Rightarrow> False | Some cs \<Rightarrow> cs > 600))
     = credit_above_600 c"
  by (cases "c_credit_score c") (auto simp: truthy_num_def credit_above_600_def)

lemma add_if: "(if b then (s::int) + k else s) = s + (if b then k else 0)"
  by simp

lemma contact_case:
  "(case lc of None \<Rightarrow> (s::int)
    | Some t \<Rightarrow> if P t then s + 20 else if Q t then s + 10 else s)
   = s + (case lc of None \<Rightarrow> 0 | Some t \<Rightarrow> if P t then 20 else if Q t then 10 else 0)"
  by (simp split: option.splits)

lemma if_bounds:
  "0 \<le> (if b then (10::int) else 0) \<and> (if b then (10::int) else 0) \<le> 10"
  "0 \<le> (if b then (20::int) else 0) \<and> (if b then (20::int) else 0) \<le> 20"
  by simp_all

lemma contact_points_bounds: "0 \<le> contact_points c now \<and> contact_points c now \<le> 20"
  by (simp add: contact_points_def split: option.splits)

lemma qualification_points_bounds:
  "0 \<le> qualification_points c opportunities now \<and> qualification_points c opportunities now \<le> 100"
  unfolding qualification_points_def
  using contact_points_bounds[of c now]
    if_bounds(1)[of "present_text (c_email c)"]
    if_bounds(1)[of "present_text (c_mobile c) \<or> present_text (c_phone c)"]
    if_bounds(2)[of "present_amount (c_estimated_assets c)"]
    if_bounds(2)[of "credit_above_600 c"]
    if_bounds(2)[of "has_active_opportunity opportunities c"]
  by linarith

lemma score_closed_form:
  "snd (calculate_qualification_score c opportunities now)
     = min (qualification_points c opportunities now) 100"
  unfolding calculate_qualification_score_def Let_def snd_conv
  unfolding contact_case
  unfolding add_if
  unfolding credit_condition
  unfolding truthy_str_present truthy_num_present active_count_pos days_since_less
  unfolding qualification_points_def contact_points_def
  by (simp only: add_0)

text \<open>
  C10. For every customer, opportunity table and time, the returned score is the sum of
  10 for a present email, 10 for a present phone or mobile number, 20 for present
  estimated assets, 20 for a credit score above 600, 20 for a last contact less than 7
  days ago (else 10 if less than 30 days ago) and 20 for at least one active
  opportunity; it lies between 0 and 100 (the sum never exceeds 100, so the clamp
  changes nothing) and is the value stored in \<^verbatim>\<open>qualification_score\<close>.
\<close>

theorem qualification_score_is_sum:
  "snd (calculate_qualification_score c opportunities now) = qualification_points c opportunities now
   \<and> snd (calculate_qualification_score c opportunities now)
        = min (qualification_points c opportunities now) 100
   \<and> 0 \<le> snd (calculate_qualification_score c opportunities now)
   \<and> snd (calculate_qualification_score c opportunities now) \<le> 100
   \<and> c_qualification_score (fst (calculate_qualification_score c opportunities now))
        = snd (calculate_qualification_score c opportunities now)"
proof -
  have "c_qualification_score (fst (calculate_qualification_score c opportunities now))
        = snd (calculate_qualification_score c opportunities now)"
    by (simp add: calculate_qualification_score_def Let_def)
  then show ?thesis
    using score_closed_form[of c opportunities now] qualification_points_bounds[of c opportunities now]
    by simp
qed

theorem qualification_score_is_sum_witness:
  "snd (calculate_qualification_score sample_customer [sample_opportunity] 3000) = 100
   \<and> snd (calculate_qualification_score
        (sample_customer\<lparr>c_email := None, c_credit_score := Some 600,
                         c_last_contact_date := Some 0\<rparr>) [] (10 * 86400)) = 40"
proof -
  have a: "qualification_points sample_customer [sample_opportunity] 3000 = 100"
    by (simp add: qualification_points_def contact_points_def present_text_def present_amount_def
        credit_above_600_def has_active_opportunity_def sample_customer_def sample_opportunity_def)
  have b: "qualification_points (sample_customer\<lparr>c_email := None, c_credit_score := Some 600,
                         c_last_contact_date := Some 0\<rparr>) [] (10 * 86400) = 40"
    by (simp add: qualification_points_def contact_points_def present_text_def present_amount_def
        credit_above_600_def has_active_opportunity_def sample_customer_def)
  show ?thesis
    using qualification_score_is_sum [of sample_customer "[sample_opportunity]" 3000]
      qualification_score_is_sum [of "sample_customer\<lparr>c_email := None, c_credit_score := Some 600,
                         c_last_contact_date := Some 0\<rparr>" "[]" "10 * 86400"] a b
    by simp
qed

subsection \<open>Task lifecycle\<close>

text \<open>
  C6, as stated, fails: \<^verbatim>\<open>complete\<close> on a cancelled task is not rejected and changes
  its status to COMPLETED.
\<close>

theorem terminal_task_counterexample:
  "t_status cancelled_task = CANCELLED
   \<and> t_status (complete cancelled_task 9000) = COMPLETED"
  by (simp add: complete_def cancelled_task_def)

text \<open>
  C6, amended. On a task whose status is COMPLETED or CANCELLED, \<^verbatim>\<open>check_overdue\<close>
  changes nothing and returns false. \<^verbatim>\<open>complete\<close> is never rejected: it sets the status
  to COMPLETED, so a COMPLETED task keeps its status and a CANCELLED task becomes
  COMPLETED.
\<close>

theorem terminal_task_operations:
  assumes "t_status t = COMPLETED \<or> t_status t = CANCELLED"
  shows "check_overdue t now = (t, False)
       \<and> t_status (complete t now) = COMPLETED
       \<and> (t_status t = COMPLETED \<longrightarrow> t_status (complete t now) = t_status t)"
  using assms by (auto simp: check_overdue_def complete_def)

theorem terminal_task_operations_witness:
  "check_overdue cancelled_task 9000 = (cancelled_task, False)
   \<and> t_status (complete (complete sample_task 8000) 9000) = COMPLETED"
proof -
  have c: "t_status cancelled_task = COMPLETED \<or> t_status cancelled_task = CANCELLED"
    by (simp add: cancelled_task_def)
  have d: "t_status (complete sample_task 8000) = COMPLETED \<or> t_status (complete sample_task 8000) = CANCELLED"
    by (simp add: complete_def)
  show ?thesis
    using terminal_task_operations [OF c, of 9000] terminal_task_operations [OF d, of 9000]
    by simp
qed

subsection \<open>Task scoping\<close>

text \<open>
  C9. For an authenticated user at level INDIVIDUAL the task filter returns, from any
  query, exactly the rows that are assigned to the user or were assigned by the user,
  in their order; the unit table, the user table and the stack bound play no part.
\<close>

theorem individual_task_scope:
  assumes "u_access_level u = INDIVIDUAL"
  shows "apply_task_filter depth db users (LoggedIn u) query
           = Inr (filter (\<lambda>t. t_assigned_to_id t = u_id u \<or> t_assigned_by_id t = u_id u) query)"
  using assms by (simp add: apply_task_filter_def)

theorem individual_task_scope_witness:
  "apply_task_filter 0 [] [] (LoggedIn sales_rep)
     [sample_task, sample_task\<lparr>t_assigned_to_id := 10\<rparr>,
      sample_task\<lparr>t_assigned_to_id := 10, t_assigned_by_id := 20\<rparr>]
   = Inr [sample_task, sample_task\<lparr>t_assigned_to_id := 10, t_assigned_by_id := 20\<rparr>]"
proof -
  have level: "u_access_level sales_rep = INDIVIDUAL" by (simp add: sales_rep_def)
  show ?thesis
    using individual_task_scope [OF level, of 0 "[]" "[]"
      "[sample_task, sample_task\<lparr>t_assigned_to_id := 10\<rparr>,
        sample_task\<lparr>t_assigned_to_id := 10, t_assigned_by_id := 20\<rparr>]"]
    by (simp add: sales_rep_def sample_task_def)
qed

subsection \<open>Audit trail\<close>

lemma log_action_available:
  "w_db_available w \<Longrightarrow>
   log_action user action rt rid d s em w =
     (Inr \<lparr>a_user_id = (case user of Some u \<Rightarrow> Some (u_id u) | None \<Rightarrow> None),
           a_username = (case user of Some u \<Rightarrow> u_username u | None \<Rightarrow> ''anonymous''),
           a_action = action, a_resource_type = rt, a_resource_id = rid, a_description = d,
           a_success = s, a_error_message = em\<rparr>,
      w\<lparr>w_audit_logs := w_audit_logs w @
            [\<lparr>a_user_id = (case user of Some u \<Rightarrow> Some (u_id u) | None \<Rightarrow> None),
              a_username = (case user of Some u \<Rightarrow> u_username u | None \<Rightarrow> ''anonymous''),
              a_action = action, a_resource_type = rt, a_resource_id = rid, a_description = d,
              a_success = s, a_error_message = em\<rparr>],
         w_audit_logger := w_audit_logger w @
            [\<lparr>a_user_id = (case user of Some u \<Rightarrow> Some (u_id u) | None \<Rightarrow> None),
              a_username = (case user of Some u \<Rightarrow> u_username u | None \<Rightarrow> ''anonymous''),
              a_action = action, a_resource_type = rt, a_resource_id = rid, a_description = d,
              a_success = s, a_error_message = em\<rparr>]\<rparr>)"
  by (simp add: log_action_def Let_def)

lemma log_action_unavailable:
  "\<not> w_db_available w \<Longrightarrow>
   log_action user action rt rid d s em w = (Inl (Exception ''commit failed''), w)"
  by (simp add: log_action_def Let_def)

lemma audit_action_outcome:
  "fst (audit_action action resource_type f cu kwargs w) = fst (f w)"
proof -
  obtain r w1 where fw: "f w = (r, w1)" by (cases "f w")
  obtain s em where sem: "(case r of
                Inr r \<Rightarrow> (True, None)
              | Inl (Exception msg) \<Rightarrow> (False, Some msg)
              | Inl (BaseException msg) \<Rightarrow> (True, None)) = (s, em)"
    by (cases "(case r of
                Inr r \<Rightarrow> (True, None)
              | Inl (Exception msg) \<Rightarrow> (False, Some msg)
              | Inl (BaseException msg) \<Rightarrow> (True, None))")
  show ?thesis
  proof (cases cu)
    case Anonymous
    then show ?thesis using fw sem by (simp add: audit_action_def Let_def)
  next
    case (LoggedIn u)
    show ?thesis
    proof (cases "w_db_available w1")
      case True
      then show ?thesis using LoggedIn fw sem
        by (simp add: audit_action_def Let_def log_action_available)
    next
      case False
      then show ?thesis using LoggedIn fw sem
        by (simp add: audit_action_def Let_def log_action_unavailable)
    qed
  qed
qed

text \<open>
  C7, as stated, fails twice: for an anonymous current user the failed call leaves no
  audit entry at all, and an exception whose message is empty is recorded with an empty
  error message.
\<close>

theorem audit_action_counterexample:
  "w_audit_logs (snd (audit_action ''view'' ''customer'' (raising ''boom'') Anonymous Map.empty
       sample_world)) = []
   \<and> map a_error_message
       (w_audit_logs (snd (audit_action ''view'' ''customer'' (raising []) (LoggedIn sales_rep)
          Map.empty sample_world))) = [Some []]"
  by (simp add: audit_action_def raising_def Let_def log_action_available sample_world_def)

text \<open>
  C7, amended. Let the audited call raise an exception with message \<open>msg\<close>. The same
  exception reaches the caller, whoever the current user is and whether or not the
  audit entry can be stored. For a logged-in user and a database that accepts the
  commit, exactly one entry is appended to the audit table, with \<^verbatim>\<open>success\<close> false and
  the error message \<open>msg\<close> (empty when the exception has no message). When the commit
  fails, the failure is caught, reported on the application log, and no entry is
  stored. For an anonymous user nothing is written.
\<close>

theorem audit_action_on_error:
  assumes raised: "f w = (Inl (Exception msg), w1)"
  shows "fst (audit_action action resource_type f cu kwargs w) = Inl (Exception msg)
       \<and> (w_db_available w1 \<longrightarrow>
            (\<exists>e. w_audit_logs (snd (audit_action action resource_type f (LoggedIn u) kwargs w))
                    = w_audit_logs w1 @ [e]
                \<and> \<not> a_success e \<and> a_error_message e = Some msg
                \<and> a_user_id e = Some (u_id u) \<and> a_action e = action
                \<and> a_resource_type e = resource_type))
       \<and> (\<not> w_db_available w1 \<longrightarrow>
            w_audit_logs (snd (audit_action action resource_type f (LoggedIn u) kwargs w))
              = w_audit_logs w1
          \<and> w_app_log (snd (audit_action action resource_type f (LoggedIn u) kwargs w))
              = w_app_log w1 @ [''Audit logging failed: commit failed''])
       \<and> snd (audit_action action resource_type f Anonymous kwargs w) = w1"
proof -
  have 1: "fst (audit_action action resource_type f cu kwargs w) = Inl (Exception msg)"
    using audit_action_outcome[of action resource_type f cu kwargs w] raised by simp
  have 2: "w_db_available w1 \<longrightarrow>
            (\<exists>e. w_audit_logs (snd (audit_action action resource_type f (LoggedIn u) kwargs w))
                    = w_audit_logs w1 @ [e]
                \<and> \<not> a_success e \<and> a_error_message e = Some msg
                \<and> a_user_id e = Some (u_id u) \<and> a_action e = action
                \<and> a_resource_type e = resource_type)"
    using raised by (simp add: audit_action_def Let_def log_action_available)
  have 3: "\<not> w_db_available w1 \<longrightarrow>
            w_audit_logs (snd (audit_action action resource_type f (LoggedIn u) kwargs w))
              = w_audit_logs w1
          \<and> w_app_log (snd (audit_action action resource_type f (LoggedIn u) kwargs w))
              = w_app_log w1 @ [''Audit logging failed: commit failed'']"
    using raised by (simp add: audit_action_def Let_def log_action_unavailable)
  have 4: "snd (audit_action action resource_type f Anonymous kwargs w) = w1"
    using raised by (simp add: audit_action_def Let_def)
  from 1 2 3 4 show ?thesis by blast
qed

theorem audit_action_on_error_witness:
  "fst (audit_action ''update'' ''customer'' (raising ''boom'') (LoggedIn sales_rep)
          (Map.empty(''id'' \<mapsto> 100)) sample_world) = Inl (Exception ''boom'')
   \<and> map a_success (w_audit_logs (snd (audit_action ''update'' ''customer'' (raising ''boom'')
          (LoggedIn sales_rep) (Map.empty(''id'' \<mapsto> 100)) sample_world))) = [False]
   \<and> map a_error_message (w_audit_logs (snd (audit_action ''update'' ''customer''
          (raising ''boom'') (LoggedIn sales_rep) (Map.empty(''id'' \<mapsto> 100)) sample_world)))
        = [Some ''boom'']"
proof -
  have raised: "raising ''boom'' sample_world = (Inl (Exception ''boom''), sample_world)"
    by (simp add: raising_def)
  have avail: "w_db_available sample_world" "w_audit_logs sample_world = []"
    by (simp_all add: sample_world_def)
  show ?thesis
    using audit_action_on_error [where f = "raising ''boom''" and w = sample_world
        and msg = "''boom''" and ?w1.0 = sample_world and action = "''update''"
        and resource_type = "''customer''" and cu = "LoggedIn sales_rep"
        and kwargs = "Map.empty(''id'' \<mapsto> 100)" and u = sales_rep, OF raised] avail
    by auto
qed

end
